theory Spec2Isabelle
  imports Main
begin

section \<open>Errors\<close>

text \<open>
  Every exception the module can raise or let through is a value of \<open>error\<close>; a
  function that can raise returns \<open>error + 'a\<close> with \<open>Inl\<close> for the exception.
\<close>

datatype error =
    ValueError              \<comment> \<open>urlparse: "Invalid IPv6 URL"\<close>
  | IndexError              \<comment> \<open>str.format with too few arguments\<close>
  | InvalidConfigurationURL \<comment> \<open>\<open>Exception('Invalid Configuration URL')\<close>\<close>
  | HTTPError               \<comment> \<open>requests.get / raise_for_status\<close>
  | YAMLError               \<comment> \<open>yaml.load\<close>
  | ConfigError             \<comment> \<open>GuildConfig(obj) / gc.validate()\<close>
  | IntegrityError          \<comment> \<open>insert of a primary key that exists\<close>
  | PlatformError           \<comment> \<open>any failure of the live guild's get_bans\<close>

section \<open>Python strings\<close>

definition endswith :: "string \<Rightarrow> string \<Rightarrow> bool" where
  "endswith s suf = (length suf \<le> length s \<and> drop (length s - length suf) s = suf)"

definition startswith :: "string \<Rightarrow> string \<Rightarrow> bool" where
  "startswith s pre = (take (length pre) s = pre)"

primrec index_of :: "char \<Rightarrow> string \<Rightarrow> nat option" where
  "index_of c [] = None"
| "index_of c (x # xs) = (if x = c then Some 0 else map_option Suc (index_of c xs))"

text \<open>\<open>s.find(c, start)\<close>: the lowest index at or after \<open>start\<close> holding \<open>c\<close>, or -1.\<close>

definition str_find :: "string \<Rightarrow> char \<Rightarrow> nat \<Rightarrow> int" where
  "str_find s c start =
     (case index_of c (drop start s) of None \<Rightarrow> - 1 | Some k \<Rightarrow> int (start + k))"

text \<open>\<open>s[a:b]\<close> for indices that are not negative.\<close>

definition slice :: "string \<Rightarrow> nat \<Rightarrow> nat \<Rightarrow> string" where
  "slice s a b = drop a (take b s)"

text \<open>
  \<open>fmt.format(*args)\<close> for a format string whose only replacement fields are the
  automatically numbered \<open>{}\<close>: each takes the next argument, a missing argument raises
  IndexError, arguments left over are ignored.
\<close>

fun str_format :: "string \<Rightarrow> string list \<Rightarrow> error + string" where
  "str_format [] args = Inr []"
| "str_format (c # rest) args =
     (if c = CHR ''{'' \<and> take 1 rest = ''}'' then
        (case args of
           [] \<Rightarrow> Inl IndexError
         | a # as \<Rightarrow> (case str_format (drop 1 rest) as of
                        Inl e \<Rightarrow> Inl e
                      | Inr r \<Rightarrow> Inr (a @ r)))
      else (case str_format rest args of Inl e \<Rightarrow> Inl e | Inr r \<Rightarrow> Inr (c # r)))"

section \<open>The standard library's URL parser (netloc only)\<close>

text \<open>
  \<open>urlparse.urlparse(url).netloc\<close> of Python 2.7, the only component the module reads.
  \<open>urlparse\<close> takes the netloc from \<open>urlsplit\<close> unchanged; \<open>urlsplit\<close> strips a scheme
  and, when what is left starts with \<open>//\<close>, cuts the netloc at the first of \<open>/ ? #\<close>.
  It raises ValueError when exactly one of \<open>[\<close> and \<open>]\<close> occurs in the netloc.
\<close>

definition scheme_chars :: string where
  "scheme_chars =
     ''abcdefghijklmnopqrstuvwxyzABCDEFGHIJKLMNOPQRSTUVWXYZ0123456789+-.''"

definition splitnetloc :: "string \<Rightarrow> nat \<Rightarrow> string \<times> string" where
  "splitnetloc url start =
     (let delim = fold (\<lambda>c delim.
                          let wdelim = str_find url c start
                          in if wdelim \<ge> 0 then min delim wdelim else delim)
                       ''/?#'' (int (length url))
      in (slice url start (nat delim), drop (nat delim) url))"

definition strip_scheme :: "string \<Rightarrow> string" where
  "strip_scheme url =
     (let i = str_find url CHR '':'' 0 in
      if i > 0 then
        (if take (nat i) url = ''http'' then drop (nat i + 1) url
         else if list_all (\<lambda>c. c \<in> set scheme_chars) (take (nat i) url) then
           (let rest = drop (nat i + 1) url in
            if rest = [] \<or> list_ex (\<lambda>c. c \<notin> set ''0123456789'') rest then rest else url)
         else url)
      else url)"

definition urlparse_netloc :: "string \<Rightarrow> error + string" where
  "urlparse_netloc url =
     (let url' = strip_scheme url in
      if take 2 url' = ''//'' then
        (let netloc = fst (splitnetloc url' 2) in
         if (CHR ''['' \<in> set netloc \<and> CHR '']'' \<notin> set netloc) \<or>
            (CHR '']'' \<in> set netloc \<and> CHR ''['' \<notin> set netloc)
         then Inl ValueError else Inr netloc)
      else Inr [])"

section \<open>The regular expressions the module uses\<close>

text \<open>
  The fragment of Python's \<open>re\<close> syntax that \<open>GIST_RE\<close> is written in: a literal
  character, \<open>.\<close> (any character but a newline), the greedy \<open>.*\<close>, and the capturing
  group \<open>(.*)\<close>.
\<close>

datatype re_tok = Lit char | AnyChar | Star bool

fun re_compile :: "string \<Rightarrow> re_tok list" where
  "re_compile [] = []"
| "re_compile (c # r) =
     (if c = CHR ''('' \<and> take 3 r = ''.*)'' then Star True # re_compile (drop 3 r)
      else if c = CHR ''.'' \<and> take 1 r = ''*'' then Star False # re_compile (drop 1 r)
      else if c = CHR ''.'' then AnyChar # re_compile r
      else Lit c # re_compile r)"

definition newline :: char where
  "newline = CHR 0x0A"

text \<open>
  A greedy \<open>.*\<close> followed by the rest of the pattern \<open>k\<close>: the backtracking matcher
  takes as many characters as it can and gives them back one at a time until the rest
  matches. The result is what \<open>.*\<close> consumed and what \<open>k\<close> returned.
\<close>

primrec star_greedy :: "(string \<Rightarrow> 'a option) \<Rightarrow> string \<Rightarrow> (string \<times> 'a) option" where
  "star_greedy k [] = map_option (Pair []) (k [])"
| "star_greedy k (x # xs) =
     (if x = newline then map_option (Pair []) (k (x # xs))
      else (case star_greedy k xs of
              Some (m, r) \<Rightarrow> Some (x # m, r)
            | None \<Rightarrow> map_option (Pair []) (k (x # xs))))"

text \<open>
  \<open>pattern.match(s)\<close>: the pattern is matched at the start of \<open>s\<close> (not to its end);
  the result is \<open>match.groups()\<close>, the captured groups from left to right, or None.
\<close>

fun match_toks :: "re_tok list \<Rightarrow> string \<Rightarrow> string list option" where
  "match_toks [] s = Some []"
| "match_toks (Lit c # ts) [] = None"
| "match_toks (Lit c # ts) (x # xs) = (if x = c then match_toks ts xs else None)"
| "match_toks (AnyChar # ts) [] = None"
| "match_toks (AnyChar # ts) (x # xs) = (if x = newline then None else match_toks ts xs)"
| "match_toks (Star cap # ts) s =
     (case star_greedy (\<lambda>s'. match_toks ts s') s of
        None \<Rightarrow> None
      | Some (m, gs) \<Rightarrow> Some (if cap then m # gs else gs))"

section \<open>The URL validator\<close>

definition ALLOWED_DOMAINS :: "string list" where
  "ALLOWED_DOMAINS =
     [''github.com'', ''githubusercontent.com'', ''pastebin.com'', ''hastebin.com'',
      ''gitlab.com'', ''bitbucket.org'']"

definition GIST_RE :: "re_tok list" where
  "GIST_RE = re_compile ''https://gist.githubusercontent.com/(.*)/(.*)/raw/.*/(.*)''"

definition GIST_FMT :: string where
  "GIST_FMT = ''https://gist.githubusercontent.com/{}/{}/raw/{}''"

text \<open>
  \<open>validate_config_url\<close>: \<open>Inr None\<close> is Python's \<open>None\<close> (the URL is refused),
  \<open>Inr (Some u)\<close> the URL to fetch, \<open>Inl e\<close> an exception of the parser.
\<close>

definition validate_config_url :: "string \<Rightarrow> error + string option" where
  "validate_config_url url =
     (case urlparse_netloc url of
        Inl e \<Rightarrow> Inl e
      | Inr netloc \<Rightarrow>
          if \<not> list_ex (\<lambda>i. endswith netloc i) ALLOWED_DOMAINS then Inr None
          else if startswith netloc ''gist'' then
            (case match_toks GIST_RE url of
               Some groups \<Rightarrow>
                 (case str_format GIST_FMT groups of
                    Inl e \<Rightarrow> Inl e
                  | Inr u \<Rightarrow> Inr (Some u))
             | None \<Rightarrow> Inr (Some url))
          else Inr (Some url))"

section \<open>Values and documents\<close>

text \<open>
  The Python values the mirrored columns hold (an id, a text or \<open>None\<close>, a datetime),
  and the structured document \<open>yaml.load\<close> returns and the \<open>config\<close> column stores.
\<close>

datatype pyval = PNone | PInt int | PStr string | PTime nat

datatype yaml =
    YNull | YBool bool | YInt int | YStr string | YList "yaml list" | YMap "(string \<times> yaml) list"

text \<open>Python truthiness of a loaded document: what \<open>not self.config\<close> tests.\<close>

fun truthy :: "yaml \<Rightarrow> bool" where
  "truthy YNull = False"
| "truthy (YBool b) = b"
| "truthy (YInt n) = (n \<noteq> 0)"
| "truthy (YStr s) = (s \<noteq> [])"
| "truthy (YList xs) = (xs \<noteq> [])"
| "truthy (YMap kvs) = (kvs \<noteq> [])"

section \<open>The models\<close>

record guild_row =
  guild_id :: int
  owner_id :: pyval
  name :: pyval
  icon :: pyval
  splash :: pyval
  region :: pyval
  last_ban_sync :: pyval
  config :: yaml
  config_url :: string
  enabled :: bool
  whitelist :: yaml
  added_at :: nat

text \<open>
  A \<open>GuildConfig\<close> object. \<open>gc_id\<close> is its identity: the number of \<open>GuildConfig\<close>
  objects constructed before it.
\<close>

record guild_config =
  gc_id :: nat
  gc_source :: yaml

text \<open>
  A \<open>Guild\<close> instance in memory: its column values and the attribute \<open>_cached_config\<close>
  (\<open>None\<close> when the attribute is absent).
\<close>

record guild =
  row :: guild_row
  cached_config :: "guild_config option"

record emoji_row =
  emoji_id :: int
  e_guild_id :: int
  e_name :: string
  require_colons :: bool
  managed :: bool
  roles :: "int list"
  deleted :: bool

record ban_row =
  b_user_id :: int
  b_guild_id :: int
  reason :: "string option"

section \<open>The live objects of the platform client\<close>

record live_ban =
  lb_user_id :: int
  lb_reason :: "string option"

text \<open>\<open>lg_get_bans\<close> is what \<open>guild.get_bans()\<close> does: it raises, or returns the bans.\<close>

record live_guild =
  lg_id :: int
  lg_owner_id :: pyval
  lg_name :: pyval
  lg_icon :: pyval
  lg_splash :: pyval
  lg_region :: pyval
  lg_get_bans :: "error + live_ban list"


section \<open>Storage, network and the world\<close>

datatype guild_field = Owner_id | Name | Icon | Splash | Region | Last_ban_sync

text \<open>The statements the module sends to the database, in the order it sends them.\<close>

datatype stmt =
    Insert_guild guild_row
  | Update_guild int "(guild_field \<times> pyval) list"
  | Save_guild guild_row
  | Insert_emoji emoji_row
  | Save_emoji emoji_row
  | Insert_ban ban_row

text \<open>
  The world the module acts on: the three tables it owns and the ids of the users
  table, the statements it has sent, the URLs it has fetched and the number of
  \<open>GuildConfig\<close> objects it has constructed.
\<close>

record world =
  guilds :: "int \<rightharpoonup> guild_row"
  guildemojis :: "int \<rightharpoonup> emoji_row"
  guildbans :: "int \<times> int \<rightharpoonup> ban_row"
  users :: "int set"
  writes :: "stmt list"
  fetches :: "string list"
  parses :: nat

text \<open>
  The collaborators the module calls and does not define: the HTTP client
  (\<open>requests.get\<close> followed by \<open>raise_for_status\<close>; the first argument is the number
  of requests made before), the YAML parser, and the configuration schema
  (whether \<open>GuildConfig(obj)\<close> and \<open>gc.validate()\<close> return).
\<close>

record env =
  http_get :: "nat \<Rightarrow> string \<Rightarrow> error + string"
  yaml_load :: "string \<Rightarrow> error + yaml"
  construct_ok :: "yaml \<Rightarrow> bool"
  validate_ok :: "yaml \<Rightarrow> bool"

section \<open>Guild\<close>

text \<open>\<open>GuildConfig(obj)\<close>: counts the construction, then raises or returns the object.\<close>

definition GuildConfig :: "env \<Rightarrow> world \<Rightarrow> yaml \<Rightarrow> (error + guild_config) \<times> world" where
  "GuildConfig ev w obj =
     (let w' = w\<lparr>parses := parses w + 1\<rparr> in
      if construct_ok ev obj then (Inr \<lparr>gc_id = parses w, gc_source = obj\<rparr>, w')
      else (Inl ConfigError, w'))"

definition load_from_url ::
  "env \<Rightarrow> world \<Rightarrow> string \<Rightarrow> (error + guild_config \<times> yaml) \<times> world" where
  "load_from_url ev w url =
     (let w1 = w\<lparr>fetches := fetches w @ [url]\<rparr> in
      case http_get ev (length (fetches w)) url of
        Inl e \<Rightarrow> (Inl e, w1)
      | Inr content \<Rightarrow>
          (case yaml_load ev content of
             Inl e \<Rightarrow> (Inl e, w1)
           | Inr obj \<Rightarrow>
               (case GuildConfig ev w1 obj of
                  (Inl e, w2) \<Rightarrow> (Inl e, w2)
                | (Inr gc, w2) \<Rightarrow>
                    if validate_ok ev obj then (Inr (gc, obj), w2)
                    else (Inl ConfigError, w2))))"

text \<open>
  \<open>Guild.create(...)\<close>: the insert raises when the primary key exists; the columns
  not given take their defaults.
\<close>

definition create_guild ::
  "world \<Rightarrow> nat \<Rightarrow> live_guild \<Rightarrow> yaml \<Rightarrow> string \<Rightarrow> (error + guild) \<times> world" where
  "create_guild w now g raw url =
     (let r = \<lparr>guild_id = lg_id g, owner_id = lg_owner_id g, name = lg_name g,
                icon = lg_icon g, splash = lg_splash g, region = lg_region g,
                last_ban_sync = PNone, config = raw, config_url = url,
                enabled = True, whitelist = YList [], added_at = now\<rparr> in
      case guilds w (lg_id g) of
        Some _ \<Rightarrow> (Inl IntegrityError, w)
      | None \<Rightarrow>
          (Inr \<lparr>row = r, cached_config = None\<rparr>,
           w\<lparr>guilds := (guilds w)(lg_id g \<mapsto> r), writes := writes w @ [Insert_guild r]\<rparr>))"

definition create_from_url ::
  "env \<Rightarrow> world \<Rightarrow> nat \<Rightarrow> live_guild \<Rightarrow> string \<Rightarrow> (error + guild) \<times> world" where
  "create_from_url ev w now g url =
     (case validate_config_url url of
        Inl e \<Rightarrow> (Inl e, w)
      | Inr None \<Rightarrow> (Inl InvalidConfigurationURL, w)
      | Inr (Some url') \<Rightarrow>
          if url' = [] then (Inl InvalidConfigurationURL, w)
          else (case load_from_url ev w url' of
                  (Inl e, w1) \<Rightarrow> (Inl e, w1)
                | (Inr (_, raw), w1) \<Rightarrow> create_guild w1 now g raw url'))"

text \<open>
  \<open>getattr(guild, key)\<close> and \<open>getattr(self, key)\<close>. The live guild has no
  \<open>last_ban_sync\<close>; \<open>sync\<close> asks only for the five keys of \<open>mirror_keys\<close>.
\<close>

definition live_getattr :: "live_guild \<Rightarrow> guild_field \<Rightarrow> pyval" where
  "live_getattr g key =
     (case key of Owner_id \<Rightarrow> lg_owner_id g | Name \<Rightarrow> lg_name g | Icon \<Rightarrow> lg_icon g
      | Splash \<Rightarrow> lg_splash g | Region \<Rightarrow> lg_region g | Last_ban_sync \<Rightarrow> PNone)"

definition guild_getattr :: "guild_row \<Rightarrow> guild_field \<Rightarrow> pyval" where
  "guild_getattr r key =
     (case key of Owner_id \<Rightarrow> owner_id r | Name \<Rightarrow> name r | Icon \<Rightarrow> icon r
      | Splash \<Rightarrow> splash r | Region \<Rightarrow> region r | Last_ban_sync \<Rightarrow> last_ban_sync r)"

definition set_field :: "guild_field \<times> pyval \<Rightarrow> guild_row \<Rightarrow> guild_row" where
  "set_field kv r =
     (case fst kv of
        Owner_id \<Rightarrow> r\<lparr>owner_id := snd kv\<rparr>
      | Name \<Rightarrow> r\<lparr>name := snd kv\<rparr>
      | Icon \<Rightarrow> r\<lparr>icon := snd kv\<rparr>
      | Splash \<Rightarrow> r\<lparr>splash := snd kv\<rparr>
      | Region \<Rightarrow> r\<lparr>region := snd kv\<rparr>
      | Last_ban_sync \<Rightarrow> r\<lparr>last_ban_sync := snd kv\<rparr>)"

text \<open>
  \<open>Guild.update(**updates).where(Guild.guild_id == gid).execute()\<close>: one statement;
  it changes the row with that key, when there is one.
\<close>

definition update_guild :: "world \<Rightarrow> int \<Rightarrow> (guild_field \<times> pyval) list \<Rightarrow> world" where
  "update_guild w gid updates =
     w\<lparr>guilds := (case guilds w gid of
                     None \<Rightarrow> guilds w
                   | Some r \<Rightarrow> (guilds w)(gid \<mapsto> fold set_field updates r)),
       writes := writes w @ [Update_guild gid updates]\<rparr>"

definition mirror_keys :: "guild_field list" where
  "mirror_keys = [Owner_id, Name, Icon, Splash, Region]"

text \<open>The loop of \<open>sync\<close> that fills the dictionary \<open>updates\<close>, in insertion order.\<close>

definition sync_updates :: "guild \<Rightarrow> live_guild \<Rightarrow> (guild_field \<times> pyval) list" where
  "sync_updates self g =
     fold (\<lambda>key updates.
             if live_getattr g key \<noteq> guild_getattr (row self) key
             then updates @ [(key, live_getattr g key)] else updates)
          mirror_keys []"

definition sync :: "world \<Rightarrow> guild \<Rightarrow> live_guild \<Rightarrow> guild \<times> world" where
  "sync w self g =
     (let updates = sync_updates self g in
      if updates \<noteq> [] then (self, update_guild w (guild_id (row self)) updates)
      else (self, w))"

text \<open>\<open>self.save()\<close>: an update of every column of the row with the instance's key.\<close>

definition save_guild :: "world \<Rightarrow> guild \<Rightarrow> world" where
  "save_guild w self =
     w\<lparr>guilds := (case guilds w (guild_id (row self)) of
                     None \<Rightarrow> guilds w
                   | Some _ \<Rightarrow> (guilds w)(guild_id (row self) \<mapsto> row self)),
       writes := writes w @ [Save_guild (row self)]\<rparr>"

definition reload :: "env \<Rightarrow> world \<Rightarrow> guild \<Rightarrow> (error + unit) \<times> guild \<times> world" where
  "reload ev w self =
     (case load_from_url ev w (config_url (row self)) of
        (Inl e, w1) \<Rightarrow> (Inl e, self, w1)
      | (Inr (_, raw), w1) \<Rightarrow>
          (let self1 = self\<lparr>row := (row self)\<lparr>config := raw\<rparr>\<rparr>;
               w2 = save_guild w1 self1
           in (Inr (), self1\<lparr>cached_config := None\<rparr>, w2)))"

definition get_config ::
  "env \<Rightarrow> world \<Rightarrow> guild \<Rightarrow> (error + guild_config) \<times> guild \<times> world" where
  "get_config ev w self =
     (case (if \<not> truthy (config (row self)) then reload ev w self else (Inr (), self, w)) of
        (Inl e, self1, w1) \<Rightarrow> (Inl e, self1, w1)
      | (Inr _, self1, w1) \<Rightarrow>
          (case cached_config self1 of
             Some gc \<Rightarrow> (Inr gc, self1, w1)
           | None \<Rightarrow>
               (case GuildConfig ev w1 (config (row self1)) of
                  (Inl e, w2) \<Rightarrow> (Inl e, self1, w2)
                | (Inr gc, w2) \<Rightarrow> (Inr gc, self1\<lparr>cached_config := Some gc\<rparr>, w2))))"

section \<open>GuildBan\<close>

text \<open>
  Modelled from the spec: \<open>User.ensure\<close> of \<open>rowboat.models.user\<close>, which is not in
  this module. It "ensures the banned user exists in the User collaborator (creates a
  minimal user record if absent)".
\<close>

definition User_ensure :: "world \<Rightarrow> int \<Rightarrow> world" where
  "User_ensure w uid = w\<lparr>users := insert uid (users w)\<rparr>"

text \<open>
  \<open>GuildBan.ensure\<close>: \<open>get_or_create\<close> returns the row with the key when there is
  one, and inserts a row with the defaults otherwise.
\<close>

definition ensure :: "world \<Rightarrow> live_guild \<Rightarrow> live_ban \<Rightarrow> ban_row \<times> world" where
  "ensure w g ban =
     (let w1 = User_ensure w (lb_user_id ban) in
      case guildbans w1 (lb_user_id ban, lg_id g) of
        Some obj \<Rightarrow> (obj, w1)
      | None \<Rightarrow>
          (let obj = \<lparr>b_user_id = lb_user_id ban, b_guild_id = lg_id g, reason = lb_reason ban\<rparr>
           in (obj, w1\<lparr>guildbans := (guildbans w1)((lb_user_id ban, lg_id g) \<mapsto> obj),
                       writes := writes w1 @ [Insert_ban obj]\<rparr>)))"

text \<open>
  \<open>Guild.sync_bans\<close>. The bare \<open>except\<close> around \<open>guild.get_bans()\<close> returns; nothing
  else in the body raises, so the result is always \<open>Inr ()\<close>.
\<close>

definition sync_bans :: "world \<Rightarrow> guild \<Rightarrow> live_guild \<Rightarrow> nat \<Rightarrow> (error + unit) \<times> world" where
  "sync_bans w self g now =
     (case lg_get_bans g of
        Inl _ \<Rightarrow> (Inr (), w)
      | Inr bans \<Rightarrow>
          (let w1 = fold (\<lambda>ban w'. snd (ensure w' g ban)) bans w
           in (Inr (), update_guild w1 (guild_id (row self)) [(Last_ban_sync, PTime now)])))"

section \<open>GuildEmoji\<close>




section \<open>The allow-list as the specification words it\<close>

text \<open>
  The specification's test: the host is "exactly or a proper dot-suffix of an
  allow-listed domain". It is compared below with the test the code makes,
  \<open>list_ex (endswith netloc) ALLOWED_DOMAINS\<close>.
\<close>

definition exact_or_subdomain :: "string \<Rightarrow> bool" where
  "exact_or_subdomain h = list_ex (\<lambda>d. h = d \<or> endswith h (''.'' @ d)) ALLOWED_DOMAINS"

section \<open>Example data\<close>

text \<open>Concrete worlds, records and live objects at which the theorems are instantiated.\<close>

definition world0 :: world where
  "world0 = \<lparr>guilds = Map.empty, guildemojis = Map.empty, guildbans = Map.empty,
             users = {}, writes = [], fetches = [], parses = 0\<rparr>"

definition live0 :: live_guild where
  "live0 = \<lparr>lg_id = 1, lg_owner_id = PInt 10, lg_name = PStr ''new name'', lg_icon = PNone,
            lg_splash = PNone, lg_region = PStr ''eu'', lg_get_bans = Inl PlatformError\<rparr>"

definition row0 :: guild_row where
  "row0 = \<lparr>guild_id = 1, owner_id = PInt 10, name = PStr ''old name'', icon = PNone,
           splash = PNone, region = PStr ''us'', last_ban_sync = PNone, config = YNull,
           config_url = ''https://github.com/x/y'', enabled = True, whitelist = YList [],
           added_at = 0\<rparr>"

definition self0 :: guild where
  "self0 = \<lparr>row = row0, cached_config = None\<rparr>"

definition env0 :: env where
  "env0 = \<lparr>http_get = (\<lambda>n url. Inr ''{}''), yaml_load = (\<lambda>content. Inr (YMap [])),
           construct_ok = (\<lambda>obj. True), validate_ok = (\<lambda>obj. True)\<rparr>"

definition world1 :: world where
  "world1 = world0\<lparr>guilds := [1 \<mapsto> row0]\<rparr>"

definition live_same :: live_guild where
  "live_same = live0\<lparr>lg_name := PStr ''old name'', lg_region := PStr ''us''\<rparr>"

definition self_loaded :: guild where
  "self_loaded = \<lparr>row = row0\<lparr>config := YMap [(''nickname'', YStr ''bot'')]\<rparr>, cached_config = None\<rparr>"



definition first_call :: "(error + guild_config) \<times> guild \<times> world" where
  "first_call = get_config env0 world0 self0"

definition second_call :: "(error + guild_config) \<times> guild \<times> world" where
  "second_call = get_config env0 (snd (snd first_call)) (fst (snd first_call))"


definition ban1 :: live_ban where
  "ban1 = \<lparr>lb_user_id = 42, lb_reason = Some ''spam''\<rparr>"

definition ban2 :: live_ban where
  "ban2 = \<lparr>lb_user_id = 42, lb_reason = Some ''raid''\<rparr>"

section \<open>Lemmas about the matcher and the parser\<close>

lemma star_greedy_split:
  "star_greedy k s = Some (m, r) \<Longrightarrow> \<exists>j\<le>length s. m = take j s \<and> k (drop j s) = Some r"
proof (induction s arbitrary: m r)
  case Nil
  then show ?case by auto
next
  case (Cons x xs)
  show ?case
  proof (cases "x \<noteq> newline \<and> star_greedy k xs \<noteq> None")
    case True
    then obtain m' r' where s: "star_greedy k xs = Some (m', r')" by auto
    with True Cons.prems have m: "m = x # m'" and r: "r' = r" by auto
    from Cons.IH[OF s] obtain j where "j \<le> length xs" "m' = take j xs" "k (drop j xs) = Some r'"
      by blast
    then have "Suc j \<le> length (x # xs) \<and> m = take (Suc j) (x # xs) \<and> k (drop (Suc j) (x # xs)) = Some r"
      using m r by simp
    then show ?thesis by blast
  next
    case False
    then have "map_option (Pair []) (k (x # xs)) = Some (m, r)"
      using Cons.prems by (auto split: if_splits option.splits)
    then have "m = [] \<and> k (x # xs) = Some r" by auto
    then have "0 \<le> length (x # xs) \<and> m = take 0 (x # xs) \<and> k (drop 0 (x # xs)) = Some r" by simp
    then show ?thesis by blast
  qed
qed

lemma count_list_drop_le: "count_list (drop j s) c \<le> count_list s c"
proof (induction s arbitrary: j)
  case Nil show ?case by simp
next
  case (Cons x xs)
  show ?case
  proof (cases j)
    case 0 then show ?thesis by simp
  next
    case (Suc n)
    have "count_list (drop n xs) c \<le> count_list xs c" by (rule Cons.IH)
    then show ?thesis using Suc by simp
  qed
qed

lemma match_needs_slashes:
  "match_toks ts s = Some gs \<Longrightarrow> count_list ts (Lit CHR ''/'') \<le> count_list s CHR ''/''"
proof (induction ts s arbitrary: gs rule: match_toks.induct)
  case (6 cap ts s)
  from "6.prems" obtain m gs' where sg: "star_greedy (match_toks ts) s = Some (m, gs')"
    by (auto split: option.splits)
  from star_greedy_split[OF sg] obtain j where "match_toks ts (drop j s) = Some gs'" by blast
  from "6.IH"[OF this] have "count_list ts (Lit CHR ''/'') \<le> count_list (drop j s) CHR ''/''" .
  also have "\<dots> \<le> count_list s CHR ''/''" by (rule count_list_drop_le)
  finally show ?case by simp
qed (auto split: if_splits)

lemma star_greedy_none_longer:
  "(\<And>j. 1 \<le> j \<Longrightarrow> j \<le> length t \<Longrightarrow> k (drop j t) = None) \<Longrightarrow>
   star_greedy k t = map_option (Pair []) (k t)"
proof (induction t)
  case Nil
  show ?case by simp
next
  case (Cons x xs)
  have "star_greedy k xs = map_option (Pair []) (k xs)"
  proof (rule Cons.IH)
    fix j assume "1 \<le> j" "j \<le> length xs"
    then have "k (drop (Suc j) (x # xs)) = None" by (intro Cons.prems) auto
    then show "k (drop j xs) = None" by simp
  qed
  moreover have "k (drop 1 (x # xs)) = None" by (rule Cons.prems) auto
  ultimately show ?case by simp
qed

lemma star_greedy_exact:
  assumes "newline \<notin> set m" and "k t = Some r"
    and "\<And>j. 1 \<le> j \<Longrightarrow> j \<le> length t \<Longrightarrow> k (drop j t) = None"
  shows "star_greedy k (m @ t) = Some (m, r)"
  using assms(1)
proof (induction m)
  case Nil
  show ?case using star_greedy_none_longer[of t k, OF assms(3)] assms(2) by simp
next
  case (Cons x xs)
  then show ?case by auto
qed

lemma count_list_app: "count_list (xs @ ys) c = count_list xs c + count_list ys c"
  by (induction xs) auto

lemma count_list_notin: "c \<notin> set xs \<Longrightarrow> count_list xs c = 0"
  by (induction xs) auto

lemma gist_toks: "GIST_RE = map Lit ''https://gist'' @ AnyChar # map Lit ''githubusercontent'' @ AnyChar # map Lit ''com/'' @
   [Star True, Lit CHR ''/'', Star True, Lit CHR ''/'', Lit CHR ''r'', Lit CHR ''a'', Lit CHR ''w'', Lit CHR ''/'',
    Star False, Lit CHR ''/'', Star True]"
  by (simp add: GIST_RE_def)

lemma no_match_few_slashes:
  "count_list s CHR ''/'' < count_list ts (Lit CHR ''/'') \<Longrightarrow> match_toks ts s = None"
  using match_needs_slashes[of ts s] by (cases "match_toks ts s") auto

lemma count_list_drop_Cons:
  "1 \<le> j \<Longrightarrow> count_list (drop j (x # xs)) c \<le> count_list xs c"
  using count_list_drop_le[of "j - 1" xs c] by (cases j) auto

lemma star_greedy_segment:
  assumes m: "newline \<notin> set m"
    and k: "match_toks ts (CHR ''/'' # t) = Some r"
    and n: "count_list t CHR ''/'' < count_list ts (Lit CHR ''/'')"
  shows "star_greedy (match_toks ts) (m @ CHR ''/'' # t) = Some (m, r)"
proof (rule star_greedy_exact[of m "match_toks ts" "CHR ''/'' # t" r, OF m k])
  fix j :: nat
  assume "1 \<le> j"
  then have "count_list (drop j (CHR ''/'' # t)) CHR ''/'' \<le> count_list t CHR ''/''"
    by (rule count_list_drop_Cons)
  with n show "match_toks ts (drop j (CHR ''/'' # t)) = None"
    by (intro no_match_few_slashes) simp
qed

lemma star_greedy_all:
  "newline \<notin> set m \<Longrightarrow> star_greedy (match_toks []) m = Some (m, [])"
  using star_greedy_exact[of m "match_toks []" "[]" "[]"] by simp

lemma gist_match_prefix:
  "match_toks GIST_RE (''https://gist.githubusercontent.com/'' @ s) =
   match_toks [Star True, Lit CHR ''/'', Star True, Lit CHR ''/'', Lit CHR ''r'', Lit CHR ''a'',
     Lit CHR ''w'', Lit CHR ''/'', Star False, Lit CHR ''/'', Star True] s"
  by (simp add: gist_toks newline_def)

lemma gist_match_segments:
  assumes U: "CHR ''/'' \<notin> set U" "newline \<notin> set U"
    and G: "CHR ''/'' \<notin> set G" "newline \<notin> set G"
    and R: "CHR ''/'' \<notin> set R" "newline \<notin> set R"
    and F: "CHR ''/'' \<notin> set F" "newline \<notin> set F"
  shows "match_toks GIST_RE
           (''https://gist.githubusercontent.com/'' @ U @ ''/'' @ G @ ''/raw/'' @ R @ ''/'' @ F)
         = Some [U, G, F]"
proof -
  have cU: "count_list U CHR ''/'' = 0" and cG: "count_list G CHR ''/'' = 0"
    and cR: "count_list R CHR ''/'' = 0" and cF: "count_list F CHR ''/'' = 0"
    using U G R F by (simp_all add: count_list_notin)
  have 4: "match_toks [Star True] F = Some [F]"
    using star_greedy_all[OF F(2)] by simp
  have 3: "match_toks [Star False, Lit CHR ''/'', Star True] (R @ CHR ''/'' # F) = Some [F]"
    using star_greedy_segment[OF R(2), of "[Lit CHR ''/'', Star True]" F "[F]"] 4 cF by simp
  have 2: "match_toks [Star True, Lit CHR ''/'', Lit CHR ''r'', Lit CHR ''a'', Lit CHR ''w'',
              Lit CHR ''/'', Star False, Lit CHR ''/'', Star True]
             (G @ CHR ''/'' # ''raw/'' @ R @ CHR ''/'' # F) = Some [G, F]"
    using star_greedy_segment[OF G(2),
        of "[Lit CHR ''/'', Lit CHR ''r'', Lit CHR ''a'', Lit CHR ''w'', Lit CHR ''/'', Star False, Lit CHR ''/'', Star True]"
           "''raw/'' @ R @ CHR ''/'' # F" "[F]"] 3 cR cF
    by (simp add: count_list_app)
  have 1: "match_toks [Star True, Lit CHR ''/'', Star True, Lit CHR ''/'', Lit CHR ''r'',
              Lit CHR ''a'', Lit CHR ''w'', Lit CHR ''/'', Star False, Lit CHR ''/'', Star True]
             (U @ CHR ''/'' # G @ CHR ''/'' # ''raw/'' @ R @ CHR ''/'' # F) = Some [U, G, F]"
    using star_greedy_segment[OF U(2),
        of "[Lit CHR ''/'', Star True, Lit CHR ''/'', Lit CHR ''r'', Lit CHR ''a'', Lit CHR ''w'', Lit CHR ''/'',
             Star False, Lit CHR ''/'', Star True]"
           "G @ CHR ''/'' # ''raw/'' @ R @ CHR ''/'' # F" "[G, F]"] 2 cG cR cF
    by (simp add: count_list_app)
  show ?thesis
    unfolding gist_match_prefix using 1 by simp
qed

lemma gist_no_match_three:
  assumes "CHR ''/'' \<notin> set U" "CHR ''/'' \<notin> set G" "CHR ''/'' \<notin> set F"
  shows "match_toks GIST_RE (''https://gist.githubusercontent.com/'' @ U @ ''/'' @ G @ ''/raw/'' @ F) = None"
  unfolding gist_match_prefix
  using assms by (intro no_match_few_slashes) (simp add: count_list_app count_list_notin)

lemma index_of_takeWhile:
  "index_of c t = (if c \<in> set t then Some (length (takeWhile (\<lambda>x. x \<noteq> c) t)) else None)"
  by (induction t) auto

lemma takeWhile_all_length: "c \<notin> set t \<Longrightarrow> length (takeWhile (\<lambda>x. x \<noteq> c) t) = length t"
  by (induction t) auto

lemma min_takeWhile:
  "min (length (takeWhile P xs)) (length (takeWhile Q xs)) = length (takeWhile (\<lambda>x. P x \<and> Q x) xs)"
  by (induction xs) auto

lemma takeWhile_True: "takeWhile (\<lambda>x. True) xs = xs"
  by (induction xs) auto

lemma delim_step:
  assumes "start \<le> length url" and "delim \<le> int (length url)"
  shows "(let wdelim = str_find url c start in if wdelim \<ge> 0 then min delim wdelim else delim)
         = min delim (int (start + length (takeWhile (\<lambda>x. x \<noteq> c) (drop start url))))"
proof (cases "c \<in> set (drop start url)")
  case True
  then show ?thesis by (simp add: str_find_def index_of_takeWhile)
next
  case False
  then have "length (takeWhile (\<lambda>x. x \<noteq> c) (drop start url)) = length url - start"
    by (simp add: takeWhile_all_length)
  with False assms show ?thesis by (simp add: str_find_def index_of_takeWhile)
qed

lemma fold_delim:
  assumes "start \<le> length url"
  shows "d \<le> int (length url) \<Longrightarrow>
    fold (\<lambda>c delim. let wdelim = str_find url c start
                     in if wdelim \<ge> 0 then min delim wdelim else delim) cs d
    = min d (int (start + length (takeWhile (\<lambda>x. x \<notin> set cs) (drop start url))))"
proof (induction cs arbitrary: d)
  case Nil
  with assms show ?case by (simp add: takeWhile_True)
next
  case (Cons c cs)
  let ?t = "drop start url"
  let ?d' = "min d (int (start + length (takeWhile (\<lambda>x. x \<noteq> c) ?t)))"
  have le: "?d' \<le> int (length url)" using Cons.prems by simp
  have "min ?d' (int (start + length (takeWhile (\<lambda>x. x \<notin> set cs) ?t)))
        = min d (int (start + min (length (takeWhile (\<lambda>x. x \<noteq> c) ?t))
                                 (length (takeWhile (\<lambda>x. x \<notin> set cs) ?t))))"
    by simp
  also have "\<dots> = min d (int (start + length (takeWhile (\<lambda>x. x \<notin> set (c # cs)) ?t)))"
    by (simp only: min_takeWhile set_simps insert_iff de_Morgan_disj)
  finally show ?case
    using Cons.IH[OF le] delim_step[OF assms Cons.prems, of c] by simp
qed

lemma splitnetloc_fst:
  assumes "start \<le> length url"
  shows "fst (splitnetloc url start) = takeWhile (\<lambda>c. c \<notin> set ''/?#'') (drop start url)"
proof -
  let ?t = "drop start url"
  let ?n = "length (takeWhile (\<lambda>c. c \<notin> set ''/?#'') ?t)"
  have "?n \<le> length ?t" by (rule length_takeWhile_le)
  then have n: "start + ?n \<le> length url" using assms by simp
  have "fst (splitnetloc url start) = drop start (take (start + ?n) url)"
    unfolding splitnetloc_def slice_def
    using fold_delim[OF assms order_refl, of "''/?#''"] n by (simp add: Let_def nat_int_add)
  also have "\<dots> = take ?n ?t"
    by (simp add: drop_take)
  also have "\<dots> = takeWhile (\<lambda>c. c \<notin> set ''/?#'') ?t"
    by (rule takeWhile_eq_take[symmetric])
  finally show ?thesis .
qed

lemma strip_scheme_https: "strip_scheme (''https://'' @ s) = ''//'' @ s"
  by (simp add: strip_scheme_def str_find_def scheme_chars_def)

lemma netloc_https:
  "urlparse_netloc (''https://'' @ s) =
     (let netloc = takeWhile (\<lambda>c. c \<notin> set ''/?#'') s in
      if (CHR ''['' \<in> set netloc \<and> CHR '']'' \<notin> set netloc) \<or>
         (CHR '']'' \<in> set netloc \<and> CHR ''['' \<notin> set netloc)
      then Inl ValueError else Inr netloc)"
proof -
  have "fst (splitnetloc (''//'' @ s) 2) = takeWhile (\<lambda>c. c \<notin> set ''/?#'') (drop 2 (''//'' @ s))"
    by (rule splitnetloc_fst) simp
  then show ?thesis
    unfolding urlparse_netloc_def strip_scheme_https by (simp add: Let_def)
qed

lemma netloc_gist:
  "urlparse_netloc (''https://gist.githubusercontent.com/'' @ s) = Inr ''gist.githubusercontent.com''"
  using netloc_https[of "''gist.githubusercontent.com/'' @ s"] by simp

lemma validate_gist_host:
  "validate_config_url (''https://gist.githubusercontent.com/'' @ s) =
     (case match_toks GIST_RE (''https://gist.githubusercontent.com/'' @ s) of
        Some groups \<Rightarrow> (case str_format GIST_FMT groups of Inl e \<Rightarrow> Inl e | Inr u \<Rightarrow> Inr (Some u))
      | None \<Rightarrow> Inr (Some (''https://gist.githubusercontent.com/'' @ s)))"
  unfolding validate_config_url_def netloc_gist
  by (simp add: ALLOWED_DOMAINS_def endswith_def startswith_def)

lemma gist_fmt: "str_format GIST_FMT [U, G, F] =
   Inr (''https://gist.githubusercontent.com/'' @ U @ ''/'' @ G @ ''/raw/'' @ F)"
  by (simp add: GIST_FMT_def)

lemma endswith_iff: "endswith s suf = (\<exists>p. s = p @ suf)"
proof
  assume e: "endswith s suf"
  have "s = take (length s - length suf) s @ drop (length s - length suf) s" by simp
  with e have "s = take (length s - length suf) s @ suf" by (simp add: endswith_def)
  then show "\<exists>p. s = p @ suf" ..
next
  assume "\<exists>p. s = p @ suf"
  then obtain p where "s = p @ suf" ..
  then show "endswith s suf" by (simp add: endswith_def)
qed

lemma endswith_Cons: "endswith s (c # d) \<Longrightarrow> endswith s d"
proof -
  assume "endswith s (c # d)"
  then obtain p where "s = p @ c # d" unfolding endswith_iff ..
  then have "s = (p @ [c]) @ d" by simp
  then show ?thesis unfolding endswith_iff ..
qed

lemma endswith_nonempty: "endswith s d \<Longrightarrow> d \<noteq> [] \<Longrightarrow> s \<noteq> []"
  by (auto simp: endswith_def)

lemma allowed_nonempty: "d \<in> set ALLOWED_DOMAINS \<Longrightarrow> d \<noteq> []"
  by (auto simp: ALLOWED_DOMAINS_def)

lemma netloc_empty_url: "urlparse_netloc [] = Inr []"
  by (simp add: urlparse_netloc_def strip_scheme_def str_find_def)

lemma star_greedy_result:
  "star_greedy k s = Some (m, r) \<Longrightarrow> \<exists>t. k t = Some r"
  using star_greedy_split[of k s m r] by blast

lemma match_groups_length:
  "match_toks ts s = Some gs \<Longrightarrow> length gs = count_list ts (Star True)"
proof (induction ts s arbitrary: gs rule: match_toks.induct)
  case (6 cap ts s)
  from "6.prems" obtain m gs' where sg: "star_greedy (match_toks ts) s = Some (m, gs')"
    and gs: "gs = (if cap then m # gs' else gs')"
    by (auto split: option.splits)
  from star_greedy_result[OF sg] obtain t where "match_toks ts t = Some gs'" ..
  from "6.IH"[OF this] show ?case using gs by simp
qed (auto split: if_splits)

lemma gist_groups:
  assumes "match_toks GIST_RE url = Some gs"
  shows "\<exists>a b c. gs = [a, b, c]"
proof -
  have "length gs = 3" using match_groups_length[OF assms] by (simp add: gist_toks)
  then show ?thesis
    by (auto simp: length_Suc_conv numeral_3_eq_3)
qed

lemma validate_accepts:
  assumes n: "urlparse_netloc url = Inr h" and a: "list_ex (\<lambda>i. endswith h i) ALLOWED_DOMAINS"
  shows "\<exists>u. validate_config_url url = Inr (Some u) \<and> u \<noteq> []"
proof -
  from a obtain d where "d \<in> set ALLOWED_DOMAINS" "endswith h d" by (auto simp: list_ex_iff)
  then have "h \<noteq> []" using endswith_nonempty allowed_nonempty by blast
  with n have url: "url \<noteq> []" using netloc_empty_url by auto
  show ?thesis
  proof (cases "startswith h ''gist''")
    case False
    with n a url show ?thesis by (simp add: validate_config_url_def)
  next
    case True
    show ?thesis
    proof (cases "match_toks GIST_RE url")
      case None
      with n a url True show ?thesis by (simp add: validate_config_url_def)
    next
      case (Some gs)
      from gist_groups[OF Some] obtain x y z where "gs = [x, y, z]" by blast
      with n a True Some show ?thesis by (simp add: validate_config_url_def gist_fmt)
    qed
  qed
qed

lemma validate_rejects:
  assumes n: "urlparse_netloc url = Inr h" and a: "\<not> list_ex (\<lambda>i. endswith h i) ALLOWED_DOMAINS"
  shows "validate_config_url url = Inr None"
  using assms by (simp add: validate_config_url_def)

lemma count_list_take_drop:
  "count_list (take j s) c + count_list (drop j s) c = count_list s c"
proof -
  have "count_list (take j s @ drop j s) c = count_list s c" by simp
  then show ?thesis by (simp only: count_list_app)
qed

lemma match_groups_slashes:
  "match_toks ts s = Some gs \<Longrightarrow>
   count_list (concat gs) CHR ''/'' + count_list ts (Lit CHR ''/'') \<le> count_list s CHR ''/''"
proof (induction ts s arbitrary: gs rule: match_toks.induct)
  case (6 cap ts s)
  from "6.prems" obtain m gs' where sg: "star_greedy (match_toks ts) s = Some (m, gs')"
    and gs: "gs = (if cap then m # gs' else gs')"
    by (auto split: option.splits)
  from star_greedy_split[OF sg] obtain j where m: "m = take j s"
    and k: "match_toks ts (drop j s) = Some gs'" by blast
  from "6.IH"[OF k]
  have "count_list (concat gs') CHR ''/'' + count_list ts (Lit CHR ''/'')
        \<le> count_list (drop j s) CHR ''/''" .
  moreover have "count_list m CHR ''/'' + count_list (drop j s) CHR ''/'' = count_list s CHR ''/''"
    unfolding m by (rule count_list_take_drop)
  ultimately show ?case using gs by (simp add: count_list_app)
qed (auto split: if_splits)

lemma validate_gist_github:
  "validate_config_url (''https://gist.github.com/'' @ s) = Inr (Some (''https://gist.github.com/'' @ s))"
proof -
  have n: "urlparse_netloc (''https://gist.github.com/'' @ s) = Inr ''gist.github.com''"
    using netloc_https[of "''gist.github.com/'' @ s"] by simp
  have m: "match_toks GIST_RE (''https://gist.github.com/'' @ s) = None"
    by (simp add: gist_toks newline_def)
  show ?thesis
    unfolding validate_config_url_def n m
    by (simp add: ALLOWED_DOMAINS_def endswith_def startswith_def)
qed

lemma validate_raises_on_bracket: "validate_config_url ''https://[github.com/x'' = Inl ValueError"
  by code_simp

section \<open>Claims about the URL validator\<close>

text \<open>
  C1, as amended. For a gist URL
  \<open>https://gist.githubusercontent.com/<user>/<gist-id>/raw/<revision>/<filename>\<close>
  whose four segments hold neither a slash nor a newline, \<open>validate_config_url\<close>
  returns \<open>https://gist.githubusercontent.com/<user>/<gist-id>/raw/<filename>\<close>: the
  revision is dropped and the filename is kept (the pattern captures the user, the gist id
  and the filename, not the revision). The pattern names that one host: a URL on
  \<open>gist.github.com\<close> is returned unchanged.
\<close>

theorem validate_gist_drops_revision:
  assumes "CHR ''/'' \<notin> set U" "newline \<notin> set U"
    and "CHR ''/'' \<notin> set G" "newline \<notin> set G"
    and "CHR ''/'' \<notin> set R" "newline \<notin> set R"
    and "CHR ''/'' \<notin> set F" "newline \<notin> set F"
  shows "validate_config_url
           (''https://gist.githubusercontent.com/'' @ U @ ''/'' @ G @ ''/raw/'' @ R @ ''/'' @ F)
         = Inr (Some (''https://gist.githubusercontent.com/'' @ U @ ''/'' @ G @ ''/raw/'' @ F)) \<and>
         validate_config_url (''https://gist.github.com/'' @ s)
         = Inr (Some (''https://gist.github.com/'' @ s))"
proof -
  have "validate_config_url
           (''https://gist.githubusercontent.com/'' @ (U @ ''/'' @ G @ ''/raw/'' @ R @ ''/'' @ F))
        = Inr (Some (''https://gist.githubusercontent.com/'' @ U @ ''/'' @ G @ ''/raw/'' @ F))"
    unfolding validate_gist_host
    using gist_match_segments[OF assms] by (simp add: gist_fmt)
  then have "validate_config_url
           (''https://gist.githubusercontent.com/'' @ U @ ''/'' @ G @ ''/raw/'' @ R @ ''/'' @ F)
        = Inr (Some (''https://gist.githubusercontent.com/'' @ U @ ''/'' @ G @ ''/raw/'' @ F))"
    by simp
  then show ?thesis using validate_gist_github[of s] by (rule conjI)
qed

theorem validate_gist_drops_revision_witness:
  "CHR ''/'' \<notin> set ''alice'' \<and> newline \<notin> set ''alice'' \<and>
   CHR ''/'' \<notin> set ''abc123'' \<and> newline \<notin> set ''abc123'' \<and>
   CHR ''/'' \<notin> set ''deadbeef'' \<and> newline \<notin> set ''deadbeef'' \<and>
   CHR ''/'' \<notin> set ''file.yml'' \<and> newline \<notin> set ''file.yml'' \<and>
   validate_config_url ''https://gist.githubusercontent.com/alice/abc123/raw/deadbeef/file.yml''
     = Inr (Some ''https://gist.githubusercontent.com/alice/abc123/raw/file.yml'') \<and>
   validate_config_url ''https://gist.github.com/alice/abc123/raw/deadbeef/file.yml''
     = Inr (Some ''https://gist.github.com/alice/abc123/raw/deadbeef/file.yml'')"
  using validate_gist_drops_revision[of "''alice''" "''abc123''" "''deadbeef''" "''file.yml''"
      "''alice/abc123/raw/deadbeef/file.yml''"]
  by (simp add: newline_def)

text \<open>
  The claim as written fails at its own example: the result keeps \<open>file.yml\<close> and drops
  \<open>deadbeef\<close>. It also fails for the allow-listed host \<open>gist.github.com\<close>, whose URL is
  not rewritten at all.
\<close>

theorem validate_gist_keeps_revision_counterexample:
  "validate_config_url ''https://gist.githubusercontent.com/alice/abc123/raw/deadbeef/file.yml''
     = Inr (Some ''https://gist.githubusercontent.com/alice/abc123/raw/file.yml'') \<and>
   validate_config_url ''https://gist.githubusercontent.com/alice/abc123/raw/deadbeef/file.yml''
     \<noteq> Inr (Some ''https://gist.githubusercontent.com/alice/abc123/raw/deadbeef'') \<and>
   validate_config_url ''https://gist.github.com/alice/abc123/raw/deadbeef/file.yml''
     \<noteq> Inr (Some ''https://gist.github.com/alice/abc123/raw/deadbeef'')"
  by code_simp

text \<open>
  C2, as amended. When the parsed host is one of the six allow-listed domains or ends
  with a dot followed by one, \<open>validate_config_url\<close> returns a URL that is not empty;
  when the host does not end with any allow-listed domain (as a plain string suffix),
  it returns \<open>None\<close>.
\<close>

theorem validate_host_allow_list:
  assumes "urlparse_netloc url = Inr h"
  shows "(exact_or_subdomain h \<longrightarrow>
            (\<exists>u. validate_config_url url = Inr (Some u) \<and> u \<noteq> [])) \<and>
         (\<not> list_ex (endswith h) ALLOWED_DOMAINS \<longrightarrow>
            validate_config_url url = Inr None)"
proof (intro conjI impI)
  assume "exact_or_subdomain h"
  then obtain d where d: "d \<in> set ALLOWED_DOMAINS" and "h = d \<or> endswith h (''.'' @ d)"
    by (auto simp: exact_or_subdomain_def list_ex_iff)
  then have "endswith h d"
    using endswith_Cons[of h "CHR ''.''" d] by (auto simp: endswith_def)
  with d have "list_ex (\<lambda>i. endswith h i) ALLOWED_DOMAINS" by (auto simp: list_ex_iff)
  with assms show "\<exists>u. validate_config_url url = Inr (Some u) \<and> u \<noteq> []"
    by (rule validate_accepts)
next
  assume "\<not> list_ex (endswith h) ALLOWED_DOMAINS"
  with assms show "validate_config_url url = Inr None" by (rule validate_rejects)
qed

theorem validate_host_allow_list_witness:
  "urlparse_netloc ''https://github.com/x/y'' = Inr ''github.com'' \<and>
   exact_or_subdomain ''github.com'' \<and>
   (\<exists>u. validate_config_url ''https://github.com/x/y'' = Inr (Some u) \<and> u \<noteq> []) \<and>
   urlparse_netloc ''https://evil.com/x'' = Inr ''evil.com'' \<and>
   \<not> list_ex (endswith ''evil.com'') ALLOWED_DOMAINS \<and>
   validate_config_url ''https://evil.com/x'' = Inr None"
proof -
  have n1: "urlparse_netloc ''https://github.com/x/y'' = Inr ''github.com''" by code_simp
  have a1: "exact_or_subdomain ''github.com''" by code_simp
  have n2: "urlparse_netloc ''https://evil.com/x'' = Inr ''evil.com''" by code_simp
  have a2: "\<not> list_ex (endswith ''evil.com'') ALLOWED_DOMAINS" by code_simp
  show ?thesis
    using validate_host_allow_list[OF n1] validate_host_allow_list[OF n2] n1 a1 n2 a2 by blast
qed

text \<open>
  The second half of the claim as written fails: the host \<open>notgithub.com\<close> is neither
  an allow-listed domain nor a dot-suffix subdomain of one, and the URL is accepted.
\<close>

theorem validate_dot_suffix_counterexample:
  "urlparse_netloc ''https://notgithub.com/x'' = Inr ''notgithub.com'' \<and>
   \<not> exact_or_subdomain ''notgithub.com'' \<and>
   validate_config_url ''https://notgithub.com/x'' = Inr (Some ''https://notgithub.com/x'')"
  by code_simp

text \<open>
  C3, as amended. \<open>validate_config_url\<close> accepts a URL exactly when its parsed host ends
  with one of the six allow-listed domains as a plain string suffix, and returns \<open>None\<close>
  exactly when it ends with none; \<open>notgithub.com\<close> and \<open>evilgithub.com\<close> both end with
  \<open>github.com\<close> and are both accepted.
\<close>

theorem validate_suffix_match:
  "(urlparse_netloc url = Inr h \<longrightarrow>
      ((\<exists>u. validate_config_url url = Inr (Some u)) = list_ex (endswith h) ALLOWED_DOMAINS) \<and>
      ((validate_config_url url = Inr None) = (\<not> list_ex (endswith h) ALLOWED_DOMAINS))) \<and>
   validate_config_url ''https://notgithub.com/x'' = Inr (Some ''https://notgithub.com/x'') \<and>
   validate_config_url ''https://evilgithub.com/x'' = Inr (Some ''https://evilgithub.com/x'')"
proof (intro conjI impI)
  assume n: "urlparse_netloc url = Inr h"
  show "(\<exists>u. validate_config_url url = Inr (Some u)) = list_ex (endswith h) ALLOWED_DOMAINS"
    using validate_accepts[OF n] validate_rejects[OF n] by (cases "list_ex (endswith h) ALLOWED_DOMAINS") auto
  show "(validate_config_url url = Inr None) = (\<not> list_ex (endswith h) ALLOWED_DOMAINS)"
    using validate_accepts[OF n] validate_rejects[OF n] by (cases "list_ex (endswith h) ALLOWED_DOMAINS") auto
next
  show "validate_config_url ''https://notgithub.com/x'' = Inr (Some ''https://notgithub.com/x'')"
    by code_simp
  show "validate_config_url ''https://evilgithub.com/x'' = Inr (Some ''https://evilgithub.com/x'')"
    by code_simp
qed

theorem validate_suffix_match_witness:
  "urlparse_netloc ''https://gitlab.com.evil.org/x'' = Inr ''gitlab.com.evil.org'' \<and>
   \<not> list_ex (endswith ''gitlab.com.evil.org'') ALLOWED_DOMAINS \<and>
   validate_config_url ''https://gitlab.com.evil.org/x'' = Inr None"
proof -
  have n: "urlparse_netloc ''https://gitlab.com.evil.org/x'' = Inr ''gitlab.com.evil.org''"
    by code_simp
  have a: "\<not> list_ex (endswith ''gitlab.com.evil.org'') ALLOWED_DOMAINS" by code_simp
  show ?thesis
    using validate_suffix_match[of "''https://gitlab.com.evil.org/x''" "''gitlab.com.evil.org''"] n a
    by blast
qed

text \<open>
  The claim as written says \<open>evilgithub.com\<close> is rejected; it ends with \<open>github.com\<close>
  and is accepted.
\<close>

theorem evilgithub_rejected_counterexample:
  "endswith ''evilgithub.com'' ''github.com'' \<and>
   validate_config_url ''https://evilgithub.com/x'' \<noteq> Inr None \<and>
   validate_config_url ''https://evilgithub.com/x'' = Inr (Some ''https://evilgithub.com/x'')"
  by code_simp

text \<open>
  C9, as amended. For a gist URL
  \<open>https://gist.githubusercontent.com/<user>/<gist-id>/raw/<revision>/<filename>\<close>
  whose four segments hold no slash, validating the URL that \<open>validate_config_url\<close>
  returned gives it back unchanged: the returned URL no longer matches \<open>GIST_RE\<close>. A URL
  on \<open>gist.github.com\<close> is never rewritten, so it is returned unchanged however often it
  is validated.
\<close>

theorem validate_gist_idempotent:
  assumes "CHR ''/'' \<notin> set U" and "CHR ''/'' \<notin> set G"
    and "CHR ''/'' \<notin> set R" and "CHR ''/'' \<notin> set F"
  shows "(\<exists>u. validate_config_url
               (''https://gist.githubusercontent.com/'' @ U @ ''/'' @ G @ ''/raw/'' @ R @ ''/'' @ F)
             = Inr (Some u) \<and>
             match_toks GIST_RE u = None \<and>
             validate_config_url u = Inr (Some u)) \<and>
         validate_config_url (''https://gist.github.com/'' @ s)
           = Inr (Some (''https://gist.github.com/'' @ s))"
proof -
  let ?s = "U @ ''/'' @ G @ ''/raw/'' @ R @ ''/'' @ F"
  let ?url = "''https://gist.githubusercontent.com/'' @ ?s"
  have c: "count_list ?url CHR ''/'' = 7"
    using assms by (simp add: count_list_app count_list_notin)
  have "\<exists>u. validate_config_url ?url = Inr (Some u) \<and> match_toks GIST_RE u = None \<and>
             validate_config_url u = Inr (Some u)"
  proof (cases "match_toks GIST_RE ?url")
    case None
    then have "validate_config_url ?url = Inr (Some ?url)"
      unfolding validate_gist_host by simp
    with None show ?thesis by blast
  next
    case (Some gs)
    from gist_groups[OF Some] obtain a b f where gs: "gs = [a, b, f]" by blast
    have "count_list (concat gs) CHR ''/'' + count_list GIST_RE (Lit CHR ''/'') \<le> 7"
      using match_groups_slashes[OF Some] c by simp
    then have "count_list a CHR ''/'' = 0 \<and> count_list b CHR ''/'' = 0 \<and>
               count_list f CHR ''/'' = 0"
      unfolding gs by (simp add: gist_toks count_list_app)
    then have n: "CHR ''/'' \<notin> set a" "CHR ''/'' \<notin> set b" "CHR ''/'' \<notin> set f"
      by (simp_all add: count_list_0_iff)
    let ?u = "''https://gist.githubusercontent.com/'' @ (a @ ''/'' @ b @ ''/raw/'' @ f)"
    have 1: "validate_config_url ?url = Inr (Some ?u)"
      unfolding validate_gist_host using Some gs by (simp add: gist_fmt)
    have 2: "match_toks GIST_RE ?u = None"
      using gist_no_match_three[OF n] by simp
    have 3: "validate_config_url ?u = Inr (Some ?u)"
      unfolding validate_gist_host using 2 by simp
    from 1 2 3 show ?thesis by blast
  qed
  then have "\<exists>u. validate_config_url
               (''https://gist.githubusercontent.com/'' @ U @ ''/'' @ G @ ''/raw/'' @ R @ ''/'' @ F)
             = Inr (Some u) \<and>
             match_toks GIST_RE u = None \<and>
             validate_config_url u = Inr (Some u)"
    by simp
  then show ?thesis using validate_gist_github[of s] by (rule conjI)
qed

theorem validate_gist_idempotent_witness:
  "CHR ''/'' \<notin> set ''alice'' \<and> CHR ''/'' \<notin> set ''abc123'' \<and>
   CHR ''/'' \<notin> set ''deadbeef'' \<and> CHR ''/'' \<notin> set ''file.yml'' \<and>
   (\<exists>u. validate_config_url
           ''https://gist.githubusercontent.com/alice/abc123/raw/deadbeef/file.yml''
         = Inr (Some u) \<and>
         match_toks GIST_RE u = None \<and>
         validate_config_url u = Inr (Some u)) \<and>
   validate_config_url ''https://gist.github.com/alice/abc123/raw/deadbeef/file.yml''
     = Inr (Some ''https://gist.github.com/alice/abc123/raw/deadbeef/file.yml'')"
  using validate_gist_idempotent[of "''alice''" "''abc123''" "''deadbeef''" "''file.yml''"
      "''alice/abc123/raw/deadbeef/file.yml''"]
  by simp

text \<open>
  The claim as written, for every accepted gist URL, fails when the part after \<open>/raw/\<close>
  holds further slashes: the greedy groups leave a URL that matches \<open>GIST_RE\<close> again, and a
  second validation rewrites it once more.
\<close>

theorem validate_gist_idempotent_counterexample:
  "validate_config_url ''https://gist.githubusercontent.com/a/b/raw/c/d/raw/e/f''
     = Inr (Some ''https://gist.githubusercontent.com/a/b/raw/c/d/raw/f'') \<and>
   validate_config_url ''https://gist.githubusercontent.com/a/b/raw/c/d/raw/f''
     = Inr (Some ''https://gist.githubusercontent.com/a/b/raw/f'') \<and>
   validate_config_url ''https://gist.githubusercontent.com/a/b/raw/c/d/raw/f''
     \<noteq> Inr (Some ''https://gist.githubusercontent.com/a/b/raw/c/d/raw/f'') \<and>
   validate_config_url
       ''https://gist.githubusercontent.com/alice/abc123/raw/deadbeef/file.yml?ref=/raw/x/y''
     = Inr (Some ''https://gist.githubusercontent.com/alice/abc123/raw/deadbeef/file.yml?ref=/raw/y'') \<and>
   validate_config_url
       ''https://gist.githubusercontent.com/alice/abc123/raw/deadbeef/file.yml?ref=/raw/y''
     = Inr (Some ''https://gist.githubusercontent.com/alice/abc123/raw/y'')"
  by code_simp

section \<open>Lemmas about the models\<close>

lemma fold_updates:
  "fold (\<lambda>key updates. if P key then updates @ [(key, f key)] else updates) ks acc
   = acc @ map (\<lambda>k. (k, f k)) (filter P ks)"
  by (induction ks arbitrary: acc) auto

lemma sync_updates_eq:
  "sync_updates self g =
     map (\<lambda>k. (k, live_getattr g k))
       (filter (\<lambda>k. live_getattr g k \<noteq> guild_getattr (row self) k) mirror_keys)"
  unfolding sync_updates_def by (simp add: fold_updates)

lemma getattr_set_field:
  "guild_getattr (set_field (k', v) r) k = (if k = k' then v else guild_getattr r k)"
  by (cases k; cases k') (simp_all add: guild_getattr_def set_field_def)

lemma getattr_fold_set_field:
  "guild_getattr (fold set_field (map (\<lambda>k. (k, f k)) ks) r) k
   = (if k \<in> set ks then f k else guild_getattr r k)"
  by (induction ks arbitrary: r rule: rev_induct) (auto simp: getattr_set_field)

lemma set_field_frame:
  "guild_id (set_field kv r) = guild_id r \<and> config (set_field kv r) = config r \<and>
   config_url (set_field kv r) = config_url r \<and> enabled (set_field kv r) = enabled r \<and>
   whitelist (set_field kv r) = whitelist r \<and> added_at (set_field kv r) = added_at r"
  by (cases "fst kv") (simp_all add: set_field_def)

lemma fold_set_field_frame:
  "guild_id (fold set_field ups r) = guild_id r \<and> config (fold set_field ups r) = config r \<and>
   config_url (fold set_field ups r) = config_url r \<and> enabled (fold set_field ups r) = enabled r \<and>
   whitelist (fold set_field ups r) = whitelist r \<and> added_at (fold set_field ups r) = added_at r"
  by (induction ups arbitrary: r) (simp_all add: set_field_frame)

lemma get_config_caches:
  "get_config ev w self = (Inr gc, self1, w1) \<Longrightarrow> cached_config self1 = Some gc"
  by (auto simp: get_config_def reload_def GuildConfig_def Let_def
           split: if_splits prod.splits sum.splits option.splits)

lemma get_config_cached:
  "truthy (config (row self)) \<Longrightarrow> cached_config self = Some gc \<Longrightarrow>
   get_config ev w self = (Inr gc, self, w)"
  by (simp add: get_config_def)

lemma get_config_truthy:
  "truthy (config (row self)) \<Longrightarrow> get_config ev w self = (r, self1, w1) \<Longrightarrow>
   fetches w1 = fetches w \<and> parses w1 \<le> parses w + 1"
  by (auto simp: get_config_def GuildConfig_def Let_def
           split: if_splits prod.splits sum.splits option.splits)

lemma first_call_eq:
  "first_call =
     (Inr \<lparr>gc_id = 1, gc_source = YMap []\<rparr>,
      \<lparr>row = row0\<lparr>config := YMap []\<rparr>, cached_config = Some \<lparr>gc_id = 1, gc_source = YMap []\<rparr>\<rparr>,
      world0\<lparr>writes := [Save_guild (row0\<lparr>config := YMap []\<rparr>)],
             fetches := [''https://github.com/x/y''], parses := 2\<rparr>)"
  by (simp add: first_call_def get_config_def reload_def load_from_url_def GuildConfig_def
        save_guild_def env0_def world0_def self0_def row0_def Let_def)

lemma second_call_eq:
  "second_call =
     (Inr \<lparr>gc_id = 3, gc_source = YMap []\<rparr>,
      \<lparr>row = row0\<lparr>config := YMap []\<rparr>, cached_config = Some \<lparr>gc_id = 3, gc_source = YMap []\<rparr>\<rparr>,
      world0\<lparr>writes := [Save_guild (row0\<lparr>config := YMap []\<rparr>), Save_guild (row0\<lparr>config := YMap []\<rparr>)],
             fetches := [''https://github.com/x/y'', ''https://github.com/x/y''], parses := 4\<rparr>)"
  unfolding second_call_def first_call_eq
  by (simp add: get_config_def reload_def load_from_url_def GuildConfig_def
        save_guild_def env0_def world0_def self0_def row0_def Let_def)

section \<open>Claims about the models\<close>

text \<open>
  C4. When the live guild's \<open>get_bans\<close> raises, whatever it raises, \<open>sync_bans\<close>
  returns normally and leaves the world as it was: no row of \<open>guildbans\<close> is added,
  \<open>last_ban_sync\<close> is not stamped, and no statement is sent.
\<close>

theorem sync_bans_fetch_failure:
  assumes "lg_get_bans g = Inl e"
  shows "sync_bans w self g now = (Inr (), w)"
  using assms by (simp add: sync_bans_def)

theorem sync_bans_fetch_failure_witness:
  "lg_get_bans live0 = Inl PlatformError \<and> sync_bans world0 self0 live0 5 = (Inr (), world0)"
  using sync_bans_fetch_failure[of live0 PlatformError world0 self0 5]
  by (simp add: live0_def)

text \<open>
  C5. When \<open>validate_config_url\<close> refuses the URL, \<open>create_from_url\<close> raises
  \<open>Exception('Invalid Configuration URL')\<close> and leaves the world as it was: nothing is
  fetched and no row is created.
\<close>

theorem create_from_url_invalid:
  assumes "validate_config_url url = Inr None"
  shows "create_from_url ev w now g url = (Inl InvalidConfigurationURL, w)"
  using assms by (simp add: create_from_url_def)

theorem create_from_url_invalid_witness:
  "validate_config_url ''https://evil.com/x'' = Inr None \<and>
   create_from_url env0 world0 5 live0 ''https://evil.com/x'' = (Inl InvalidConfigurationURL, world0)"
proof -
  have v: "validate_config_url ''https://evil.com/x'' = Inr None" by code_simp
  from create_from_url_invalid[OF v, of env0 world0 5 live0] v show ?thesis by simp
qed

text \<open>
  C6. \<open>sync\<close> leaves the instance (and its cached configuration) as it was. When the
  five mirrored attributes of the live guild equal the instance's, the world is unchanged.
  Otherwise exactly one statement is sent, an update whose fields are the mirrored fields
  that differ, each with the live value; the other tables, the fetches and the parse count
  are unchanged, and in the row with the instance's key only those fields change.
\<close>

theorem sync_single_update:
  assumes "sync w self g = (self', w')"
  shows "self' = self \<and>
    ((\<forall>k\<in>set mirror_keys. live_getattr g k = guild_getattr (row self) k) \<longrightarrow> w' = w) \<and>
    ((\<exists>k\<in>set mirror_keys. live_getattr g k \<noteq> guild_getattr (row self) k) \<longrightarrow>
       writes w' = writes w @
         [Update_guild (guild_id (row self))
            (map (\<lambda>k. (k, live_getattr g k))
               (filter (\<lambda>k. live_getattr g k \<noteq> guild_getattr (row self) k) mirror_keys))]) \<and>
    guildemojis w' = guildemojis w \<and> guildbans w' = guildbans w \<and> users w' = users w \<and>
    fetches w' = fetches w \<and> parses w' = parses w \<and>
    (\<forall>i. i \<noteq> guild_id (row self) \<longrightarrow> guilds w' i = guilds w i) \<and>
    (guilds w (guild_id (row self)) = None \<longrightarrow> guilds w' (guild_id (row self)) = None) \<and>
    (\<forall>r. guilds w (guild_id (row self)) = Some r \<longrightarrow>
       (\<exists>r'. guilds w' (guild_id (row self)) = Some r' \<and>
          (\<forall>k. guild_getattr r' k =
                (if k \<in> set mirror_keys \<and> live_getattr g k \<noteq> guild_getattr (row self) k
                 then live_getattr g k else guild_getattr r k)) \<and>
          guild_id r' = guild_id r \<and> config r' = config r \<and> config_url r' = config_url r \<and>
          enabled r' = enabled r \<and> whitelist r' = whitelist r \<and>
          last_ban_sync r' = last_ban_sync r \<and> added_at r' = added_at r))"
proof -
  let ?diffs = "filter (\<lambda>k. live_getattr g k \<noteq> guild_getattr (row self) k) mirror_keys"
  let ?ups = "map (\<lambda>k. (k, live_getattr g k)) ?diffs"
  have lbs: "\<And>r. last_ban_sync (fold set_field ?ups r) = last_ban_sync r"
  proof -
    fix r
    have "guild_getattr (fold set_field ?ups r) Last_ban_sync = guild_getattr r Last_ban_sync"
      unfolding getattr_fold_set_field by (simp add: mirror_keys_def)
    then show "last_ban_sync (fold set_field ?ups r) = last_ban_sync r"
      by (simp add: guild_getattr_def)
  qed
  show ?thesis
  proof (cases "?diffs = []")
    case True
    then have "sync w self g = (self, w)" by (simp add: sync_def sync_updates_eq)
    with assms have eq: "self' = self" "w' = w" by auto
    from True have "\<not> (\<exists>k\<in>set mirror_keys. live_getattr g k \<noteq> guild_getattr (row self) k)"
      by (simp add: filter_empty_conv)
    with eq True show ?thesis by (auto simp: filter_empty_conv)
  next
    case False
    then have "sync w self g = (self, update_guild w (guild_id (row self)) ?ups)"
      by (simp add: sync_def sync_updates_eq)
    with assms have eq: "self' = self" "w' = update_guild w (guild_id (row self)) ?ups" by auto
    from False have ex: "\<exists>k\<in>set mirror_keys. live_getattr g k \<noteq> guild_getattr (row self) k"
      by (auto simp: filter_empty_conv)
    show ?thesis
      unfolding eq using ex
      by (auto simp: update_guild_def getattr_fold_set_field fold_set_field_frame lbs
               split: option.splits)
  qed
qed

theorem sync_single_update_witness:
  "(\<exists>k\<in>set mirror_keys. live_getattr live0 k \<noteq> guild_getattr (row self0) k) \<and>
   fst (sync world1 self0 live0) = self0 \<and>
   writes (snd (sync world1 self0 live0)) =
     [Update_guild 1 [(Name, PStr ''new name''), (Region, PStr ''eu'')]] \<and>
   \<not> (\<exists>k\<in>set mirror_keys. live_getattr live_same k \<noteq> guild_getattr (row self0) k) \<and>
   snd (sync world1 self0 live_same) = world1"
proof -
  have d: "\<exists>k\<in>set mirror_keys. live_getattr live0 k \<noteq> guild_getattr (row self0) k"
    by (simp add: mirror_keys_def live_getattr_def guild_getattr_def live0_def self0_def row0_def)
  have s: "\<forall>k\<in>set mirror_keys. live_getattr live_same k = guild_getattr (row self0) k"
    by (simp add: mirror_keys_def live_getattr_def guild_getattr_def live_same_def live0_def
          self0_def row0_def)
  have f: "filter (\<lambda>k. live_getattr live0 k \<noteq> guild_getattr (row self0) k) mirror_keys
           = [Name, Region]"
    by (simp add: mirror_keys_def live_getattr_def guild_getattr_def live0_def self0_def row0_def)
  have v: "map (\<lambda>k. (k, live_getattr live0 k)) [Name, Region]
           = [(Name, PStr ''new name''), (Region, PStr ''eu'')]"
    by (simp add: live_getattr_def live0_def)
  have g: "guild_id (row self0) = 1" and w: "writes world1 = []"
    by (simp_all add: self0_def row0_def world1_def world0_def)
  from sync_single_update[of world1 self0 live0 "fst (sync world1 self0 live0)"
      "snd (sync world1 self0 live0)"] d
  have 1: "fst (sync world1 self0 live0) = self0 \<and>
           writes (snd (sync world1 self0 live0)) =
             [Update_guild 1 [(Name, PStr ''new name''), (Region, PStr ''eu'')]]"
    unfolding f v g w by simp
  from sync_single_update[of world1 self0 live_same "fst (sync world1 self0 live_same)"
      "snd (sync world1 self0 live_same)"] s
  have 2: "snd (sync world1 self0 live_same) = world1" by simp
  from d s 1 2 show ?thesis by simp
qed

text \<open>
  C7, as amended. When a call of \<open>get_config\<close> returns a configuration object and leaves
  a stored \<open>config\<close> that is true in Python's sense, the next call returns the same object
  and changes nothing: no fetch, no construction of a \<open>GuildConfig\<close>, no write. A call on
  an instance whose \<open>config\<close> is true fetches nothing and constructs at most one object.
\<close>

theorem get_config_memoized:
  assumes "get_config ev w self = (Inr gc, self1, w1)" and "truthy (config (row self1))"
  shows "get_config ev w1 self1 = (Inr gc, self1, w1) \<and>
         (truthy (config (row self)) \<longrightarrow> fetches w1 = fetches w \<and> parses w1 \<le> parses w + 1)"
  using get_config_cached[OF assms(2) get_config_caches[OF assms(1)]]
    get_config_truthy[OF _ assms(1)] by simp

theorem get_config_memoized_witness:
  "get_config env0 world0 self_loaded =
     (Inr \<lparr>gc_id = 0, gc_source = YMap [(''nickname'', YStr ''bot'')]\<rparr>,
      self_loaded\<lparr>cached_config := Some \<lparr>gc_id = 0, gc_source = YMap [(''nickname'', YStr ''bot'')]\<rparr>\<rparr>,
      world0\<lparr>parses := 1\<rparr>) \<and>
   truthy (config (row self_loaded)) \<and>
   get_config env0 (world0\<lparr>parses := 1\<rparr>)
     (self_loaded\<lparr>cached_config := Some \<lparr>gc_id = 0, gc_source = YMap [(''nickname'', YStr ''bot'')]\<rparr>\<rparr>) =
     (Inr \<lparr>gc_id = 0, gc_source = YMap [(''nickname'', YStr ''bot'')]\<rparr>,
      self_loaded\<lparr>cached_config := Some \<lparr>gc_id = 0, gc_source = YMap [(''nickname'', YStr ''bot'')]\<rparr>\<rparr>,
      world0\<lparr>parses := 1\<rparr>)"
proof -
  have 1: "get_config env0 world0 self_loaded =
     (Inr \<lparr>gc_id = 0, gc_source = YMap [(''nickname'', YStr ''bot'')]\<rparr>,
      self_loaded\<lparr>cached_config := Some \<lparr>gc_id = 0, gc_source = YMap [(''nickname'', YStr ''bot'')]\<rparr>\<rparr>,
      world0\<lparr>parses := 1\<rparr>)"
    by (simp add: get_config_def GuildConfig_def env0_def world0_def self_loaded_def Let_def)
  have 2: "truthy (config (row self_loaded))" by (simp add: self_loaded_def)
  have 3: "truthy (config (row (self_loaded\<lparr>cached_config := Some \<lparr>gc_id = 0, gc_source = YMap [(''nickname'', YStr ''bot'')]\<rparr>\<rparr>)))"
    by (simp add: self_loaded_def)
  from get_config_memoized[OF 1 3] 1 2 show ?thesis by simp
qed

text \<open>
  The claim as written fails when the stored \<open>config\<close> is false in Python's sense after
  the first call: here the remote document is the empty mapping. Each call then reloads:
  the second call fetches again, constructs two more objects and returns a new one.
\<close>

theorem get_config_refetch_counterexample:
  "fst first_call = Inr \<lparr>gc_id = 1, gc_source = YMap []\<rparr> \<and>
   fst second_call = Inr \<lparr>gc_id = 3, gc_source = YMap []\<rparr> \<and>
   fst second_call \<noteq> fst first_call \<and>
   fetches (snd (snd first_call)) = [''https://github.com/x/y''] \<and>
   fetches (snd (snd second_call)) = [''https://github.com/x/y'', ''https://github.com/x/y''] \<and>
   parses (snd (snd first_call)) = 2 \<and>
   parses (snd (snd second_call)) = 4"
  by (simp add: first_call_eq second_call_eq)

text \<open>
  C8. Two calls of \<open>ensure\<close> for the same guild and user: the second returns the row the
  first returned and changes nothing, whatever reason the second ban carries. The row is
  the one stored under the key; it carries the first call's reason when the first call
  created it, and is the row already stored otherwise.
\<close>

theorem ensure_keeps_first_reason:
  assumes "lb_user_id b2 = lb_user_id b1"
    and "ensure w g b1 = (row1, w1)" and "ensure w1 g b2 = (row2, w2)"
  shows "row2 = row1 \<and> w2 = w1 \<and>
         guildbans w2 (lb_user_id b1, lg_id g) = Some row2 \<and>
         (guildbans w (lb_user_id b1, lg_id g) = None \<longrightarrow> reason row2 = lb_reason b1) \<and>
         (\<forall>old. guildbans w (lb_user_id b1, lg_id g) = Some old \<longrightarrow> row2 = old)"
proof -
  have 1: "guildbans w1 (lb_user_id b1, lg_id g) = Some row1 \<and> lb_user_id b1 \<in> users w1"
    using assms(2)
    by (auto simp: ensure_def User_ensure_def Let_def split: option.splits)
  then have "User_ensure w1 (lb_user_id b1) = w1"
    by (simp add: User_ensure_def insert_absorb)
  with 1 assms(1,3) have 2: "row2 = row1" "w2 = w1"
    by (simp_all add: ensure_def Let_def)
  have 3: "guildbans w (lb_user_id b1, lg_id g) = None \<longrightarrow> reason row1 = lb_reason b1"
    using assms(2) by (auto simp: ensure_def User_ensure_def Let_def split: option.splits)
  have 4: "\<forall>old. guildbans w (lb_user_id b1, lg_id g) = Some old \<longrightarrow> row1 = old"
    using assms(2) by (auto simp: ensure_def User_ensure_def Let_def split: option.splits)
  from 1 2 3 4 show ?thesis by simp
qed

theorem ensure_keeps_first_reason_witness:
  "lb_user_id ban2 = lb_user_id ban1 \<and> lb_reason ban2 \<noteq> lb_reason ban1 \<and>
   guildbans world0 (lb_user_id ban1, lg_id live0) = None \<and>
   fst (ensure (snd (ensure world0 live0 ban1)) live0 ban2) = fst (ensure world0 live0 ban1) \<and>
   snd (ensure (snd (ensure world0 live0 ban1)) live0 ban2) = snd (ensure world0 live0 ban1) \<and>
   reason (fst (ensure (snd (ensure world0 live0 ban1)) live0 ban2)) = Some ''spam''"
proof -
  have u: "lb_user_id ban2 = lb_user_id ban1" and r: "lb_reason ban2 \<noteq> lb_reason ban1"
    and n: "guildbans world0 (lb_user_id ban1, lg_id live0) = None"
    and b: "lb_reason ban1 = Some ''spam''"
    by (simp_all add: ban1_def ban2_def world0_def)
  have e1: "ensure world0 live0 ban1 = (fst (ensure world0 live0 ban1), snd (ensure world0 live0 ban1))"
    by simp
  have e2: "ensure (snd (ensure world0 live0 ban1)) live0 ban2 =
              (fst (ensure (snd (ensure world0 live0 ban1)) live0 ban2),
               snd (ensure (snd (ensure world0 live0 ban1)) live0 ban2))"
    by simp
  note t = ensure_keeps_first_reason[OF u e1 e2]
  from t have 1: "fst (ensure (snd (ensure world0 live0 ban1)) live0 ban2) = fst (ensure world0 live0 ban1)"
    and 2: "snd (ensure (snd (ensure world0 live0 ban1)) live0 ban2) = snd (ensure world0 live0 ban1)"
    by blast+
  from t n have "reason (fst (ensure (snd (ensure world0 live0 ban1)) live0 ban2)) = lb_reason ban1"
    by blast
  then have 3: "reason (fst (ensure (snd (ensure world0 live0 ban1)) live0 ban2)) = Some ''spam''"
    using b by (rule trans)
  from u r n 1 2 3 show ?thesis by blast
qed




end
